theory Spec2Isabelle
  imports Complex_Main
begin

section \<open>Data model (types/dashboard.ts)\<close>

text \<open>
  The interfaces of the dashboard, as records.  JavaScript numbers are modelled as
  real numbers; the clamps and comparisons below only compare and select values, so
  they behave on every finite double as they do on the reals.  The value NaN is not
  a real number and is not modelled.  Field names carry a prefix where two
  interfaces share a field name.
\<close>

type_synonym json_object = "(string \<times> string) list"

datatype bank_status = Healthy | Degraded | Down

datatype stage = Observe | Reason | Decide | Act | Learn | System

datatype log_type = Thought | Prompt | Response | Action | Error

record SystemMetrics =
  success_rate :: real
  avg_latency :: real
  transaction_volume :: real
  error_rate :: real
  timestamp :: string

record BankHealth =
  name :: string
  display_name :: string
  status :: bank_status
  bank_success_rate :: real
  bank_avg_latency :: real
  weight :: "real option"
  last_updated :: string

record AgentLog =
  log_id :: string
  log_timestamp :: string
  log_stage :: stage
  log_type :: log_type
  content :: string
  metadata :: "json_object option"

text \<open>
  What reading a property of an object literal can give: \<open>undefined\<close>, a string the
  literal holds under that key, or the member of that name the object inherits
  from \<open>Object.prototype\<close> (a function; the prototype itself for \<open>__proto__\<close>).  The
  interface declares \<open>rollbackAction\<close> as an optional string; the field holds
  whatever the lookup of the dispatcher returned.
\<close>

datatype js_member = Undefined | Str string | Inherited string

record Intervention =
  iv_id :: string
  iv_timestamp :: string
  iv_type :: string
  action :: string
  description :: string
  params :: "json_object option"
  success :: bool
  requires_approval :: bool
  approved_by :: "string option"
  canRollback :: bool
  rollbackAction :: js_member

text \<open>The inline \<open>intervention\<close> descriptor of an approval request.\<close>

record Proposal =
  p_type :: string
  p_action :: string
  p_description :: string
  p_params :: "json_object option"

record ApprovalRequest =
  intervention_id :: string
  intervention :: Proposal
  risk_score :: real
  hypothesis :: string

text \<open>The state held by \<open>WarRoomDashboard\<close> (the \<open>useState\<close> cells the claims touch).\<close>

record Dashboard =
  metrics :: SystemMetrics
  banks :: "BankHealth list"
  agentLogs :: "AgentLog list"
  interventions :: "Intervention list"
  currentStage :: stage
  pendingApprovals :: "ApprovalRequest list"
  isConnected :: bool
  simulatorRunning :: bool
  agentRunning :: bool

text \<open>
  The two readings of the clock the code takes: \<open>Date.now()\<close> (milliseconds) and
  \<open>new Date().toISOString()\<close>.
\<close>

record Clock =
  now_ms :: nat
  now_iso :: string

section \<open>JavaScript primitives\<close>

text \<open>
  \<open>Array.prototype.slice(start, end)\<close>: a negative index counts from the end, and
  both indices are clamped to the array.
\<close>

definition slice :: "int \<Rightarrow> int option \<Rightarrow> 'a list \<Rightarrow> 'a list" where
  "slice start fin xs =
     (let len = int (length xs);
          k = (if start < 0 then max (len + start) 0 else min start len);
          e = (case fin of None \<Rightarrow> len
               | Some f \<Rightarrow> (if f < 0 then max (len + f) 0 else min f len))
      in take (nat (e - k)) (drop (nat k) xs))"

text \<open>Reading an array at an index: \<open>undefined\<close> (here \<open>None\<close>) outside the array.\<close>

definition at_index :: "'a list \<Rightarrow> int \<Rightarrow> 'a option" where
  "at_index xs i = (if 0 \<le> i \<and> i < int (length xs) then Some (xs ! nat i) else None)"

text \<open>
  The names every object literal inherits from \<open>Object.prototype\<close>.  A property read
  finds the object's own key first and the inherited member otherwise.
\<close>

definition object_prototype_members :: "string list" where
  "object_prototype_members =
     [''constructor'', ''__defineGetter__'', ''__defineSetter__'', ''hasOwnProperty'',
      ''__lookupGetter__'', ''__lookupSetter__'', ''isPrototypeOf'', ''propertyIsEnumerable'',
      ''toString'', ''valueOf'', ''__proto__'', ''toLocaleString'']"

definition property_read :: "(string \<times> string) list \<Rightarrow> string \<Rightarrow> js_member" where
  "property_read obj k =
     (case map_of obj k of
        Some v \<Rightarrow> Str v
      | None \<Rightarrow> (if k \<in> set object_prototype_members then Inherited k else Undefined))"

text \<open>The decimal rendering of a number inside a template literal.\<close>

fun string_of_nat :: "nat \<Rightarrow> string" where
  "string_of_nat n =
     (if n < 10 then [char_of (48 + n)]
      else string_of_nat (n div 10) @ [char_of (48 + n mod 10)])"

declare string_of_nat.simps [simp del]

text \<open>The characters outside ASCII that the source's literals use, as UTF-8 bytes.\<close>

definition check_mark :: string where
  "check_mark = [CHR 0xE2, CHR 0x9C, CHR 0x85]"

definition emoji :: "nat \<Rightarrow> nat \<Rightarrow> string" where
  "emoji b3 b4 = [CHR 0xF0, CHR 0x9F, char_of b3, char_of b4]"

definition scales :: string where
  "scales = [CHR 0xE2, CHR 0x9A, CHR 0x96, CHR 0xEF, CHR 0xB8, CHR 0x8F]"

section \<open>Bounded log store (war-room/page.tsx)\<close>

definition addAgentLog :: "AgentLog \<Rightarrow> Dashboard \<Rightarrow> Dashboard" where
  "addAgentLog entry s = s\<lparr>agentLogs := slice (-100) None (agentLogs s) @ [entry]\<rparr>"

definition system_entry :: "Clock \<Rightarrow> string \<Rightarrow> AgentLog" where
  "system_entry c msg =
     \<lparr>log_id = ''sys_'' @ string_of_nat (now_ms c), log_timestamp = now_iso c,
      log_stage = System, log_type = Thought, content = msg, metadata = None\<rparr>"

definition addSystemLog :: "Clock \<Rightarrow> string \<Rightarrow> Dashboard \<Rightarrow> Dashboard" where
  "addSystemLog c msg s =
     s\<lparr>agentLogs := slice (-100) None (agentLogs s) @ [system_entry c msg]\<rparr>"

definition setCurrentStage :: "stage \<Rightarrow> Dashboard \<Rightarrow> Dashboard" where
  "setCurrentStage st s = s\<lparr>currentStage := st\<rparr>"

section \<open>Event dispatcher (war-room/page.tsx, \<open>ws.onmessage\<close>)\<close>

definition reversible_actions :: "string list" where
  "reversible_actions = [''switch_gateway'', ''adjust_retry_config'', ''suppress_payment_method'']"

text \<open>
  The table of \<open>getRollbackAction\<close> is an object literal with three keys, read by
  \<open>rollbacks[action]\<close>: the read reaches \<open>Object.prototype\<close> for an action that is
  not a key.
\<close>

definition rollbacks :: "(string \<times> string) list" where
  "rollbacks =
     [(''switch_gateway'', ''Restore original routing weights''),
      (''adjust_retry_config'', ''Revert to previous retry settings''),
      (''suppress_payment_method'', ''Re-enable payment method'')]"

definition getRollbackAction :: "string \<Rightarrow> js_member" where
  "getRollbackAction a = property_read rollbacks a"

text \<open>The object the dispatcher records: the payload spread, then the two derived fields.\<close>

definition annotate :: "Intervention \<Rightarrow> Intervention" where
  "annotate d =
     d\<lparr>canRollback := (action d \<in> set reversible_actions),
       rollbackAction := getRollbackAction (action d)\<rparr>"

definition action_entry :: "Clock \<Rightarrow> Intervention \<Rightarrow> AgentLog" where
  "action_entry c d =
     \<lparr>log_id = ''action_'' @ string_of_nat (now_ms c), log_timestamp = now_iso c,
      log_stage = Act, log_type = Action, content = ''Executed: '' @ description d,
      metadata = None\<rparr>"

definition record_intervention :: "Intervention \<Rightarrow> Dashboard \<Rightarrow> Dashboard" where
  "record_intervention d s =
     s\<lparr>interventions := annotate d # slice 0 (Some 49) (interventions s)\<rparr>"

definition enqueue :: "ApprovalRequest \<Rightarrow> ApprovalRequest list \<Rightarrow> ApprovalRequest list" where
  "enqueue d prev =
     (let exists = list_ex (\<lambda>p. intervention_id p = intervention_id d) prev
      in if exists then prev else slice 0 (Some 50) (d # prev))"

text \<open>A decoded message; \<open>Unrecognized\<close> is any \<open>type\<close> the \<open>switch\<close> has no case for.\<close>

datatype ws_message =
    ThoughtMsg AgentLog
  | MetricsMsg SystemMetrics
  | BanksMsg "BankHealth list"
  | InterventionMsg Intervention
  | ApprovalRequired ApprovalRequest
  | Unrecognized

fun onmessage :: "Clock \<Rightarrow> ws_message \<Rightarrow> Dashboard \<Rightarrow> Dashboard" where
  "onmessage c (ThoughtMsg l) s = setCurrentStage (log_stage l) (addAgentLog l s)"
| "onmessage c (MetricsMsg m) s = s\<lparr>metrics := m\<rparr>"
| "onmessage c (BanksMsg bs) s = s\<lparr>banks := bs\<rparr>"
| "onmessage c (InterventionMsg d) s = addAgentLog (action_entry c d) (record_intervention d s)"
| "onmessage c (ApprovalRequired d) s = s\<lparr>pendingApprovals := enqueue d (pendingApprovals s)\<rparr>"
| "onmessage c Unrecognized s = s"

section \<open>Connection manager (war-room/page.tsx, \<open>ws.onopen\<close> and \<open>ws.onclose\<close>)\<close>

definition onopen :: "Clock \<Rightarrow> Dashboard \<Rightarrow> Dashboard" where
  "onopen c s = addSystemLog c ''Connected to backend WebSocket'' (s\<lparr>isConnected := True\<rparr>)"

definition onclose :: "Dashboard \<Rightarrow> Dashboard" where
  "onclose s = s\<lparr>isConnected := False\<rparr>"

section \<open>Approval handlers (war-room/page.tsx)\<close>

text \<open>
  The record \<open>handleApprove\<close> builds, in its \<open>try\<close> branch and in its
  \<open>catch\<close> branch alike: the proposal's fields spread first, then overridden.
\<close>

definition approved_record :: "Clock \<Rightarrow> ApprovalRequest \<Rightarrow> Intervention" where
  "approved_record c approval =
     \<lparr>iv_id = intervention_id approval, iv_timestamp = now_iso c,
      iv_type = ''switch_gateway'', action = ''switch_gateway'',
      description = p_description (intervention approval),
      params = p_params (intervention approval),
      success = True, requires_approval = True, approved_by = Some ''human'',
      canRollback = True, rollbackAction = Undefined\<rparr>"

definition approved_entry :: "Clock \<Rightarrow> ApprovalRequest \<Rightarrow> AgentLog" where
  "approved_entry c approval =
     \<lparr>log_id = ''approved_'' @ string_of_nat (now_ms c), log_timestamp = now_iso c,
      log_stage = Act, log_type = Action,
      content = check_mark @ '' Approved: '' @ p_description (intervention approval),
      metadata = None\<rparr>"

definition resolve :: "string \<Rightarrow> ApprovalRequest list \<Rightarrow> ApprovalRequest list" where
  "resolve i prev = filter (\<lambda>p. intervention_id p \<noteq> i) prev"

text \<open>
  \<open>fetch_ok\<close> tells whether the awaited \<open>fetch\<close> resolved; when it rejects,
  control passes to the \<open>catch\<close> branch.  The statement after the \<open>try\<close> runs in
  both cases.  Every state update of the handler is a functional updater issued
  after the \<open>fetch\<close> has settled, so the handler is one step on the state of that
  moment.
\<close>

definition handleApprove :: "Clock \<Rightarrow> bool \<Rightarrow> ApprovalRequest \<Rightarrow> Dashboard \<Rightarrow> Dashboard" where
  "handleApprove c fetch_ok approval s =
     (let s1 = (if fetch_ok
                then (let s0 = addAgentLog (approved_entry c approval) s
                      in s0\<lparr>interventions := approved_record c approval # interventions s0\<rparr>)
                else s\<lparr>interventions := approved_record c approval # interventions s\<rparr>)
      in s1\<lparr>pendingApprovals := resolve (intervention_id approval) (pendingApprovals s1)\<rparr>)"

definition handleReject :: "bool \<Rightarrow> ApprovalRequest \<Rightarrow> Dashboard \<Rightarrow> Dashboard" where
  "handleReject fetch_ok approval s =
     (let s1 = (if fetch_ok then s else s)
      in s1\<lparr>pendingApprovals := resolve (intervention_id approval) (pendingApprovals s1)\<rparr>)"

definition handleRejectAll :: "Dashboard \<Rightarrow> Dashboard" where
  "handleRejectAll s = s\<lparr>pendingApprovals := []\<rparr>"

section \<open>Fallback simulator (hooks/useSimulation)\<close>

subsection \<open>Narration\<close>

definition stages :: "stage list" where
  "stages = [Observe, Reason, Decide, Act, Learn]"

text \<open>The table is keyed by the five stages of the cycle; it has no \<open>system\<close> key.\<close>

fun thoughtMessages :: "stage \<Rightarrow> (log_type \<times> string) list option" where
  "thoughtMessages Observe = Some
     [(Thought, emoji 0x93 0xA1 @ '' Scanning payment infrastructure...''),
      (Prompt, ''[Gemini] Analyze current metrics: success_rate=97.2%, latency=215ms''),
      (Response, ''[Gemini] Metrics within normal parameters. No immediate concerns.''),
      (Thought, emoji 0x93 0x8A @ '' Collected 50 transactions, 0 anomalies detected'')]"
| "thoughtMessages Reason = Some
     [(Thought, emoji 0xA7 0xA0 @ '' Analyzing patterns and forming hypotheses...''),
      (Prompt, ''[Gemini] Given error_rate=2.8%, what is the likely cause?''),
      (Response, ''[Gemini] Normal variance. Recommend continued monitoring.''),
      (Thought, emoji 0x92 0xA1 @ '' Hypothesis: System operating normally, risk score: 0.15'')]"
| "thoughtMessages Decide = Some
     [(Thought, scales @ '' Evaluating intervention options...''),
      (Thought, emoji 0x93 0x8B @ '' Risk below threshold - no intervention needed''),
      (Thought, check_mark @ '' Decision: Continue monitoring'')]"
| "thoughtMessages Act = Some
     [(Action, emoji 0x9A 0x80 @ '' Executing: Maintain current configuration''),
      (Thought, check_mark @ '' No changes required'')]"
| "thoughtMessages Learn = Some
     [(Thought, emoji 0x93 0x9A @ '' Recording observations for future reference''),
      (Thought, emoji 0x92 0xBE @ '' Pattern stored in memory'')]"
| "thoughtMessages System = None"

definition demo_entry :: "Clock \<Rightarrow> stage \<Rightarrow> log_type \<times> string \<Rightarrow> AgentLog" where
  "demo_entry c st msg =
     \<lparr>log_id = ''demo_'' @ string_of_nat (now_ms c), log_timestamp = now_iso c,
      log_stage = st, log_type = fst msg, content = snd msg, metadata = None\<rparr>"

text \<open>
  The callback of the narration interval.  Its state is the closure variable
  \<open>stageIndex\<close> together with the dashboard; \<open>r\<close> is the value \<open>Math.random()\<close>
  returns.  Reading a property of \<open>undefined\<close> throws, which is the result \<open>None\<close>.
\<close>

definition narration_tick :: "Clock \<Rightarrow> real \<Rightarrow> nat \<times> Dashboard \<Rightarrow> (nat \<times> Dashboard) option" where
  "narration_tick c r st =
     (let stageIndex = fst st; s = snd st
      in if \<not> agentRunning s then Some (stageIndex, s)
         else case at_index stages (int stageIndex) of
                None \<Rightarrow> None
              | Some stage \<Rightarrow>
                 (case thoughtMessages stage of
                    None \<Rightarrow> None
                  | Some messages \<Rightarrow>
                     (case at_index messages \<lfloor>r * real (length messages)\<rfloor> of
                        None \<Rightarrow> None
                      | Some msg \<Rightarrow>
                          Some ((stageIndex + 1) mod length stages,
                                setCurrentStage stage (addAgentLog (demo_entry c stage msg) s)))))"

text \<open>The interval exists only while the effect's condition holds.\<close>

definition narration_active :: "Dashboard \<Rightarrow> bool" where
  "narration_active s = (\<not> isConnected s \<and> simulatorRunning s)"

subsection \<open>Metrics and bank drift\<close>

definition status_of_rate :: "real \<Rightarrow> bank_status" where
  "status_of_rate x = (if x < 85 then Down else if x < 92 then Degraded else Healthy)"

text \<open>
  The updater passed to \<open>setMetrics\<close>; \<open>r1\<close>, \<open>r2\<close>, \<open>r3\<close> are the three values
  of \<open>Math.random()\<close>.  Every right-hand side reads \<open>prev\<close>.
\<close>

definition drift_metrics :: "Clock \<Rightarrow> real \<times> real \<times> real \<Rightarrow> SystemMetrics \<Rightarrow> SystemMetrics" where
  "drift_metrics c rs prev =
     (case rs of (r1, r2, r3) \<Rightarrow>
       prev\<lparr>success_rate := max 85 (min 99 (success_rate prev + (r1 - 1/2) * 2)),
            avg_latency := max 100 (min 500 (avg_latency prev + (r2 - 1/2) * 50)),
            transaction_volume := of_int \<lfloor>transaction_volume prev + (r3 - 1/2) * 500\<rfloor>,
            error_rate := max 1 (min 15 (100 - success_rate prev)),
            timestamp := now_iso c\<rparr>)"

text \<open>
  The function mapped over the banks by the updater passed to \<open>setBanks\<close>.  Every
  right-hand side reads \<open>bank\<close>, the element of the previous array.  The operator
  \<open>||\<close> takes its right operand when the weight is absent or zero.
\<close>

definition drift_bank :: "Clock \<Rightarrow> real \<times> real \<Rightarrow> BankHealth \<Rightarrow> BankHealth" where
  "drift_bank c rs bank =
     (case rs of (r1, r2) \<Rightarrow>
       bank\<lparr>bank_success_rate := max 80 (min (199/2) (bank_success_rate bank + (r1 - 1/2) * 1)),
            bank_avg_latency := max 100 (min 400 (bank_avg_latency bank + (r2 - 1/2) * 20)),
            status := status_of_rate (bank_success_rate bank),
            last_updated := now_iso c,
            weight := (if weight bank = None \<or> weight bank = Some 0 then Some 25
                       else weight bank)\<rparr>)"

text \<open>\<open>rb i\<close> holds the two random values drawn for the bank at position \<open>i\<close>.\<close>

definition drift_banks :: "Clock \<Rightarrow> (nat \<Rightarrow> real \<times> real) \<Rightarrow> BankHealth list \<Rightarrow> BankHealth list" where
  "drift_banks c rb prev = map (\<lambda>(i, bank). drift_bank c (rb i) bank) (List.enumerate 0 prev)"

definition drift_tick ::
  "Clock \<Rightarrow> real \<times> real \<times> real \<Rightarrow> (nat \<Rightarrow> real \<times> real) \<Rightarrow> Dashboard \<Rightarrow> Dashboard" where
  "drift_tick c rm rb s =
     s\<lparr>metrics := drift_metrics c rm (metrics s), banks := drift_banks c rb (banks s)\<rparr>"

definition drift_active :: "Dashboard \<Rightarrow> bool" where
  "drift_active s = (\<not> isConnected s)"

section \<open>Initial state\<close>

definition initial_banks :: "Clock \<Rightarrow> BankHealth list" where
  "initial_banks c =
     [\<lparr>name = ''HDFC'', display_name = ''HDFC Bank'', status = Healthy,
       bank_success_rate = 491/5, bank_avg_latency = 180, weight = Some 40,
       last_updated = now_iso c\<rparr>,
      \<lparr>name = ''ICICI'', display_name = ''ICICI Bank'', status = Healthy,
       bank_success_rate = 489/5, bank_avg_latency = 195, weight = Some 30,
       last_updated = now_iso c\<rparr>,
      \<lparr>name = ''SBI'', display_name = ''SBI Bank'', status = Healthy,
       bank_success_rate = 193/2, bank_avg_latency = 220, weight = Some 20,
       last_updated = now_iso c\<rparr>,
      \<lparr>name = ''AXIS'', display_name = ''Axis Bank'', status = Healthy,
       bank_success_rate = 971/10, bank_avg_latency = 205, weight = Some 10,
       last_updated = now_iso c\<rparr>]"

definition initial :: "Clock \<Rightarrow> Dashboard" where
  "initial c =
     \<lparr>metrics = \<lparr>success_rate = 195/2, avg_latency = 215, transaction_volume = 12450,
                 error_rate = 5/2, timestamp = now_iso c\<rparr>,
      banks = initial_banks c,
      agentLogs = [], interventions = [], currentStage = Observe, pendingApprovals = [],
      isConnected = False, simulatorRunning = False, agentRunning = True\<rparr>"

section \<open>Sequences of operations\<close>

text \<open>
  The two entry points that write the log store.  The dispatcher, the simulator and
  \<open>handleApprove\<close> go through \<open>addAgentLog\<close>; the connection manager and the
  scenario trigger go through \<open>addSystemLog\<close>.
\<close>

datatype log_append = ViaAddAgentLog AgentLog | ViaAddSystemLog Clock string

fun appended :: "log_append \<Rightarrow> AgentLog" where
  "appended (ViaAddAgentLog e) = e"
| "appended (ViaAddSystemLog c m) = system_entry c m"

fun append_log :: "Dashboard \<Rightarrow> log_append \<Rightarrow> Dashboard" where
  "append_log s (ViaAddAgentLog e) = addAgentLog e s"
| "append_log s (ViaAddSystemLog c m) = addSystemLog c m s"

text \<open>
  The operations that write the approval queue: an \<open>approval_required\<close> message,
  the last statement of \<open>handleApprove\<close> and of \<open>handleReject\<close>, and
  \<open>handleRejectAll\<close>.
\<close>

datatype queue_op = Arrive ApprovalRequest | Resolve string | RejectAll

fun queue_step :: "ApprovalRequest list \<Rightarrow> queue_op \<Rightarrow> ApprovalRequest list" where
  "queue_step q (Arrive d) = enqueue d q"
| "queue_step q (Resolve i) = resolve i q"
| "queue_step q RejectAll = []"

text \<open>A run of the drift interval: one clock reading and one set of random draws per tick.\<close>

type_synonym drift_draw = "Clock \<times> (real \<times> real \<times> real) \<times> (nat \<Rightarrow> real \<times> real)"

definition drift_step :: "Dashboard \<Rightarrow> drift_draw \<Rightarrow> Dashboard" where
  "drift_step s d = (case d of (c, rm, rb) \<Rightarrow> drift_tick c rm rb s)"

definition drift_run :: "Dashboard \<Rightarrow> drift_draw list \<Rightarrow> Dashboard" where
  "drift_run s ds = foldl drift_step s ds"

text \<open>A run of \<open>intervention\<close> messages through the dispatcher.\<close>

definition record_all :: "Clock \<Rightarrow> Dashboard \<Rightarrow> Intervention list \<Rightarrow> Dashboard" where
  "record_all c s ds = foldl (\<lambda>s d. onmessage c (InterventionMsg d) s) s ds"

text \<open>The ranges the drift generator clamps to.\<close>

definition in_range :: "Dashboard \<Rightarrow> bool" where
  "in_range s =
     (85 \<le> success_rate (metrics s) \<and> success_rate (metrics s) \<le> 99
      \<and> 100 \<le> avg_latency (metrics s) \<and> avg_latency (metrics s) \<le> 500
      \<and> 1 \<le> error_rate (metrics s) \<and> error_rate (metrics s) \<le> 15
      \<and> (\<forall>b \<in> set (banks s).
            80 \<le> bank_success_rate b \<and> bank_success_rate b \<le> 199/2
            \<and> 100 \<le> bank_avg_latency b \<and> bank_avg_latency b \<le> 400))"

section \<open>Example values\<close>

definition example_clock :: Clock where
  "example_clock = \<lparr>now_ms = 1700000000000, now_iso = ''2023-11-14T22:13:20.000Z''\<rparr>"

definition example_request :: "string \<Rightarrow> ApprovalRequest" where
  "example_request i =
     \<lparr>intervention_id = i,
      intervention = \<lparr>p_type = ''adjust_retry_config'', p_action = ''adjust_retry_config'',
                      p_description = ''Raise retry budget'', p_params = None\<rparr>,
      risk_score = 7/10, hypothesis = ''HDFC timeout due to load''\<rparr>"

definition example_intervention :: "string \<Rightarrow> string \<Rightarrow> Intervention" where
  "example_intervention i a =
     \<lparr>iv_id = i, iv_timestamp = ''2023-11-14T22:13:19.000Z'', iv_type = a, action = a,
      description = ''Route traffic away from HDFC'', params = None, success = True,
      requires_approval = False, approved_by = None, canRollback = False,
      rollbackAction = Undefined\<rparr>"

definition numbered :: "nat \<Rightarrow> string list" where
  "numbered n = map string_of_nat [0..<n]"

definition example_bank :: "real \<Rightarrow> BankHealth" where
  "example_bank x =
     \<lparr>name = ''HDFC'', display_name = ''HDFC Bank'', status = status_of_rate x,
      bank_success_rate = x, bank_avg_latency = 180, weight = Some 40,
      last_updated = ''2023-11-14T22:13:19.000Z''\<rparr>"

definition example_interventions :: "nat \<Rightarrow> Intervention list" where
  "example_interventions n = map (\<lambda>i. example_intervention i ''switch_gateway'') (numbered n)"

definition full_queue :: "ApprovalRequest list" where
  "full_queue = foldl queue_step [] (map (\<lambda>i. Arrive (example_request i)) (numbered 50))"

definition full_ledger :: Dashboard where
  "full_ledger = record_all example_clock (initial example_clock) (example_interventions 50)"

definition paused :: Dashboard where
  "paused = (initial example_clock)\<lparr>simulatorRunning := True, agentRunning := False\<rparr>"

definition example_draws :: "nat \<Rightarrow> real \<times> real" where
  "example_draws i = (3/4, 1/2)"

text \<open>
  One bank at 84.75 percent, sent by the server while the connection was open; the
  connection has closed since, so the drift interval is running.
\<close>

definition near_threshold :: Dashboard where
  "near_threshold =
     onclose (onmessage example_clock (BanksMsg [example_bank (339/4)])
                (onopen example_clock (initial example_clock)))"

definition two_pending :: Dashboard where
  "two_pending =
     (initial example_clock)\<lparr>pendingApprovals := [example_request ''a'', example_request ''b'']\<rparr>"

section \<open>Facts about the primitives\<close>

lemma slice_last_100: "slice (-100) None xs = drop (length xs - 100) xs"
  by (auto simp: slice_def Let_def max_def nat_diff_distrib' intro: arg_cong2[where f=drop])

lemma slice_first: "0 \<le> n \<Longrightarrow> slice 0 (Some n) xs = take (nat n) xs"
  by (auto simp: slice_def Let_def min_def)

lemma numbered_length: "length (numbered n) = n"
  by (simp add: numbered_def)

lemma numbered_50_distinct: "distinct (numbered 50)"
  by code_simp

lemma new_not_numbered: "''new'' \<notin> set (numbered 50)"
  by code_simp

section \<open>The log store\<close>

lemma agentLogs_addAgentLog:
  "agentLogs (addAgentLog e s) = drop (length (agentLogs s) - 100) (agentLogs s) @ [e]"
  by (simp add: addAgentLog_def slice_last_100)

lemma agentLogs_append_log:
  "agentLogs (append_log s a) = drop (length (agentLogs s) - 100) (agentLogs s) @ [appended a]"
  by (cases a) (simp_all add: agentLogs_addAgentLog addSystemLog_def slice_last_100)

text \<open>Every writer of the log store is one of the two entry points.\<close>

lemma thought_appends:
  "agentLogs (onmessage c (ThoughtMsg l) s) = agentLogs (append_log s (ViaAddAgentLog l))"
  by (simp add: setCurrentStage_def)

lemma intervention_appends:
  "agentLogs (onmessage c (InterventionMsg d) s)
   = agentLogs (append_log s (ViaAddAgentLog (action_entry c d)))"
  by (simp add: addAgentLog_def record_intervention_def)

lemma onopen_appends:
  "agentLogs (onopen c s)
   = agentLogs (append_log s (ViaAddSystemLog c ''Connected to backend WebSocket''))"
  by (simp add: onopen_def addSystemLog_def)

lemma approve_appends:
  "agentLogs (handleApprove c True a s)
   = agentLogs (append_log s (ViaAddAgentLog (approved_entry c a)))"
  by (simp add: handleApprove_def Let_def addAgentLog_def)

lemma narration_appends:
  assumes "narration_tick c r (i, s) = Some (j, s')"
  shows "agentLogs s' = agentLogs s
         \<or> (\<exists>e. agentLogs s' = agentLogs (append_log s (ViaAddAgentLog e)))"
  using assms
  by (fastforce simp: narration_tick_def setCurrentStage_def addAgentLog_def
      split: if_splits option.splits)

lemma window_step:
  "drop (length (drop (length xs - 101) xs) - 100) (drop (length xs - 101) xs) @ [e]
   = drop (length (xs @ [e]) - 101) (xs @ [e])"
proof (cases "length xs \<le> 101")
  case True
  then show ?thesis by simp
next
  case False
  then have "Suc (length xs - 101) = length xs - 100" by arith
  with False show ?thesis by simp
qed

lemma agentLogs_foldl:
  "length (agentLogs s) \<le> 101 \<Longrightarrow>
   agentLogs (foldl append_log s as) =
     drop (length (agentLogs s @ map appended as) - 101) (agentLogs s @ map appended as)"
proof (induction as rule: rev_induct)
  case Nil
  then show ?case by simp
next
  case (snoc a as)
  then show ?case
    using window_step [of "agentLogs s @ map appended as" "appended a"]
    by (simp add: agentLogs_append_log)
qed

text \<open>
  Claim C1.  Whatever sequence of appends reaches the log store from its initial,
  empty state, through \<open>addAgentLog\<close> (dispatcher, simulator, approval handler) or
  through \<open>addSystemLog\<close>, the store holds at most 101 entries, and they are the
  last 101 entries appended (all of them when fewer were appended), in the order
  of arrival.
\<close>

theorem log_store_window:
  "agentLogs (foldl append_log (initial c) as) = drop (length as - 101) (map appended as)
   \<and> length (agentLogs (foldl append_log (initial c) as)) \<le> 101"
  using agentLogs_foldl [of "initial c" as] by (simp add: initial_def)

section \<open>The approval queue\<close>

lemma enqueue_alt:
  "enqueue d q = (if intervention_id d \<in> intervention_id ` set q then q else take 50 (d # q))"
proof -
  have "list_ex (\<lambda>p. intervention_id p = intervention_id d) q
        = (intervention_id d \<in> intervention_id ` set q)"
    unfolding list_ex_iff image_iff by (rule bex_cong) auto
  then show ?thesis by (simp add: enqueue_def Let_def slice_first)
qed

lemma distinct_ids_take:
  "distinct (map intervention_id q) \<Longrightarrow> distinct (map intervention_id (take n q))"
  by (simp add: take_map [symmetric] distinct_take del: take_map)

lemma enqueue_distinct:
  assumes "distinct (map intervention_id q)"
  shows "distinct (map intervention_id (enqueue d q))"
proof (cases "intervention_id d \<in> intervention_id ` set q")
  case True
  with assms show ?thesis by (simp add: enqueue_alt)
next
  case False
  with assms have "distinct (map intervention_id (d # q))" by simp
  then have "distinct (map intervention_id (take 50 (d # q)))" by (rule distinct_ids_take)
  with False show ?thesis by (simp only: enqueue_alt if_False)
qed

lemma enqueue_length: "length q \<le> 50 \<Longrightarrow> length (enqueue d q) \<le> 50"
  by (simp add: enqueue_alt)

lemma resolve_distinct:
  "distinct (map intervention_id q) \<Longrightarrow> distinct (map intervention_id (resolve i q))"
  by (simp add: resolve_def distinct_map_filter)

lemma resolve_length: "length (resolve i q) \<le> length q"
  by (simp add: resolve_def)

lemma queue_step_inv:
  assumes "distinct (map intervention_id q)" and "length q \<le> 50"
  shows "distinct (map intervention_id (queue_step q op)) \<and> length (queue_step q op) \<le> 50"
proof (cases op)
  case (Arrive d)
  then show ?thesis using assms enqueue_distinct [of q d] enqueue_length [of q d] by simp
next
  case (Resolve i)
  then show ?thesis using assms resolve_distinct [of q i] resolve_length [of i q] by simp
next
  case RejectAll
  then show ?thesis by simp
qed

lemma queue_run_inv:
  "distinct (map intervention_id (foldl queue_step [] ops))
   \<and> length (foldl queue_step [] ops) \<le> 50"
proof (induction ops rule: rev_induct)
  case Nil
  show ?case by simp
next
  case (snoc op ops)
  then show ?case using queue_step_inv [of "foldl queue_step [] ops" op] by simp
qed

lemma enqueue_twice:
  assumes "intervention_id d' = intervention_id d"
  shows "enqueue d' (enqueue d q) = enqueue d q"
proof -
  have "intervention_id d \<in> intervention_id ` set (enqueue d q)"
    by (simp add: enqueue_alt)
  with assms show ?thesis by (simp add: enqueue_alt [of d'])
qed

lemma arrivals_distinct:
  "distinct (map intervention_id ds) \<Longrightarrow> length ds \<le> 50 \<Longrightarrow>
   foldl queue_step [] (map Arrive ds) = rev ds"
proof (induction ds rule: rev_induct)
  case Nil
  show ?case by simp
next
  case (snoc d ds)
  then have "foldl queue_step [] (map Arrive ds) = rev ds" by simp
  moreover have "intervention_id d \<notin> intervention_id ` set (rev ds)"
    using snoc.prems(1) by simp
  moreover have "length (d # rev ds) \<le> 50" using snoc.prems(2) by simp
  ultimately show ?case by (simp add: enqueue_alt)
qed

lemma full_queue_eq: "full_queue = rev (map example_request (numbered 50))"
proof -
  have ids: "map intervention_id (map example_request (numbered 50)) = numbered 50"
    by (simp add: example_request_def comp_def)
  have "foldl queue_step [] (map Arrive (map example_request (numbered 50)))
        = rev (map example_request (numbered 50))"
    by (rule arrivals_distinct) (simp_all only: ids numbered_50_distinct length_map numbered_length)
  then show ?thesis by (simp add: full_queue_def comp_def)
qed

text \<open>
  Claim C2, as amended.  In every queue reached from the empty one by arrivals,
  resolutions and reject-all, no two entries share an intervention_id and there are
  at most 50 entries.  A message whose intervention_id is already queued leaves
  the queue unchanged, so the second of two consecutive messages sharing an
  intervention_id never changes the queue.  Together they lengthen the queue by
  exactly 1 when the id was not queued and the queue held fewer than 50 entries;
  a queue that already holds 50 entries keeps its length, since the truncation
  drops its oldest entry.
\<close>

theorem approval_queue_dedup:
  assumes "q = foldl queue_step [] ops" and "intervention_id d' = intervention_id d"
  shows "distinct (map intervention_id q) \<and> length q \<le> 50
    \<and> (intervention_id d \<in> intervention_id ` set q \<longrightarrow> enqueue d q = q)
    \<and> enqueue d' (enqueue d q) = enqueue d q
    \<and> length (enqueue d' (enqueue d q)) =
        (if intervention_id d \<in> intervention_id ` set q \<or> length q = 50 then length q
         else length q + 1)"
proof -
  have inv: "distinct (map intervention_id q) \<and> length q \<le> 50"
    using queue_run_inv [of ops] assms(1) by simp
  have twice: "enqueue d' (enqueue d q) = enqueue d q"
    using assms(2) by (rule enqueue_twice)
  have len: "length (enqueue d q) =
        (if intervention_id d \<in> intervention_id ` set q \<or> length q = 50 then length q
         else length q + 1)"
    using inv by (auto simp: enqueue_alt)
  show ?thesis using inv twice len by (simp add: enqueue_alt)
qed

theorem approval_queue_dedup_witness:
  "length (enqueue (example_request ''b'') (enqueue (example_request ''b'')
             (foldl queue_step [] [Arrive (example_request ''a'')]))) = 2
   \<and> distinct (map intervention_id (foldl queue_step [] [Arrive (example_request ''a'')]))"
  using approval_queue_dedup [OF refl refl, of "[Arrive (example_request ''a'')]"
      "example_request ''b''"]
  by (simp add: enqueue_alt example_request_def)

text \<open>
  The claim as stated fails on a full queue: two messages with an id that is not
  queued leave the length at 50.
\<close>

theorem approval_queue_full_counterexample:
  "length full_queue = 50 \<and> ''new'' \<notin> set (map intervention_id full_queue)
   \<and> length (enqueue (example_request ''new'') (enqueue (example_request ''new'') full_queue))
       \<noteq> length full_queue + 1"
proof -
  have len: "length full_queue = 50"
    by (simp add: full_queue_eq numbered_length)
  have ids: "map intervention_id full_queue = rev (numbered 50)"
    by (simp add: full_queue_eq example_request_def comp_def rev_map)
  have new: "''new'' \<notin> set (map intervention_id full_queue)"
    using new_not_numbered by (simp add: ids)
  have "intervention_id (example_request ''new'') \<notin> intervention_id ` set full_queue"
    using new by (simp add: example_request_def)
  then have "length (enqueue (example_request ''new'') full_queue) = 50"
    using len by (simp add: enqueue_alt)
  then have "length (enqueue (example_request ''new'') (enqueue (example_request ''new'') full_queue)) = 50"
    by (simp add: enqueue_twice)
  with len new show ?thesis by simp
qed


section \<open>The intervention ledger\<close>

lemma interventions_onmessage:
  "interventions (onmessage c (InterventionMsg d) s) = annotate d # take 49 (interventions s)"
  by (simp add: addAgentLog_def record_intervention_def slice_first)

lemma interventions_handleApprove:
  "interventions (handleApprove c ok a s) = approved_record c a # interventions s"
  by (cases ok) (simp_all add: handleApprove_def Let_def addAgentLog_def)

lemma ledger_step: "annotate d # take 49 (take 50 xs) = take 50 (annotate d # xs)"
  by simp

lemma interventions_record_all:
  "length (interventions s) \<le> 50 \<Longrightarrow>
   interventions (record_all c s ds) = take 50 (rev (map annotate ds) @ interventions s)"
proof (induction ds rule: rev_induct)
  case Nil
  then show ?case by (simp add: record_all_def)
next
  case (snoc d ds)
  then have IH: "interventions (record_all c s ds)
                 = take 50 (rev (map annotate ds) @ interventions s)"
    by simp
  have "record_all c s (ds @ [d]) = onmessage c (InterventionMsg d) (record_all c s ds)"
    by (simp add: record_all_def del: onmessage.simps)
  then have "interventions (record_all c s (ds @ [d]))
             = annotate d # take 49 (take 50 (rev (map annotate ds) @ interventions s))"
    by (simp only: interventions_onmessage IH)
  then show ?case by (simp only: ledger_step) simp
qed

text \<open>
  The dispatcher's path keeps the bound: after 60 \<open>intervention\<close> messages the ledger
  holds the last 50, newest first, and the first 10 arrivals are gone.
\<close>

lemma ledger_sixty_messages:
  assumes "length ds = 60"
  shows "interventions (record_all c (initial c0) ds) = rev (map annotate (drop 10 ds))
         \<and> length (interventions (record_all c (initial c0) ds)) = 50"
proof -
  have "interventions (record_all c (initial c0) ds) = take 50 (rev (map annotate ds))"
    using interventions_record_all [of "initial c0" c ds] by (simp add: initial_def)
  also have "\<dots> = rev (drop 10 (map annotate ds))"
    using assms by (simp add: take_rev)
  finally have "interventions (record_all c (initial c0) ds) = rev (map annotate (drop 10 ds))"
    by (simp add: drop_map)
  then show ?thesis using assms by simp
qed

lemma full_ledger_length: "length (interventions full_ledger) = 50"
proof -
  have "interventions full_ledger = take 50 (rev (map annotate (example_interventions 50)))"
    unfolding full_ledger_def
    using interventions_record_all [of "initial example_clock" example_clock
        "example_interventions 50"]
    by (simp add: initial_def)
  then show ?thesis by (simp add: example_interventions_def numbered_length)
qed

text \<open>
  Claim C6.  The claim asks every operation that adds to the ledger to truncate it
  to 50.  The dispatcher does; \<open>handleApprove\<close> prepends without truncating.  On the
  ledger that 50 \<open>intervention\<close> messages leave, one approval, whether its request
  succeeds or fails, gives a ledger of 51 records.
\<close>

theorem approve_exceeds_ledger_bound:
  "length (interventions full_ledger) = 50
   \<and> length (interventions (handleApprove example_clock True (example_request ''r1'') full_ledger)) = 51
   \<and> length (interventions (handleApprove example_clock False (example_request ''r1'') full_ledger)) = 51"
  by (simp add: interventions_handleApprove full_ledger_length)

text \<open>
  What the dispatcher records for an \<open>intervention\<close> message, for every action:
  canRollback holds exactly for the three reversible actions, and rollbackAction
  is the table's description for each of them, the inherited member for an action
  named like a member of \<open>Object.prototype\<close>, and \<open>undefined\<close> for any other action.
\<close>

lemma annotate_fields:
  "action (annotate d) = action d
   \<and> canRollback (annotate d)
       = (action d \<in> {''switch_gateway'', ''adjust_retry_config'', ''suppress_payment_method''})
   \<and> rollbackAction (annotate d)
       = (if action d = ''switch_gateway'' then Str ''Restore original routing weights''
          else if action d = ''adjust_retry_config'' then Str ''Revert to previous retry settings''
          else if action d = ''suppress_payment_method'' then Str ''Re-enable payment method''
          else if action d \<in> set object_prototype_members then Inherited (action d)
          else Undefined)"
  by (simp add: annotate_def reversible_actions_def getRollbackAction_def property_read_def
      rollbacks_def)

lemma switch_gateway_recorded:
  assumes "action d = ''switch_gateway''"
  shows "\<exists>r. interventions (onmessage c (InterventionMsg d) s) = r # take 49 (interventions s)
           \<and> canRollback r \<and> rollbackAction r = Str ''Restore original routing weights''"
proof -
  have "interventions (onmessage c (InterventionMsg d) s) = annotate d # take 49 (interventions s)"
    by (rule interventions_onmessage)
  moreover have "canRollback (annotate d)"
    using assms annotate_fields [of d] by simp
  moreover have "rollbackAction (annotate d) = Str ''Restore original routing weights''"
    using assms annotate_fields [of d] by simp
  ultimately show ?thesis by blast
qed

text \<open>
  Claim C7.  The claim asks the rollbackAction of every recorded intervention to
  be the description the table gives for its action, so it is absent for an action
  the table has no entry for, as it is for send_alert.  The lookup reads the table
  as a plain object: for an action named like a member of \<open>Object.prototype\<close> it
  returns the inherited member.  An \<open>intervention\<close> message with action toString
  is recorded with canRollback false, as claimed, and with the inherited member
  as its rollbackAction, where the table has no entry for toString.
\<close>

theorem inherited_member_recorded:
  "map_of rollbacks ''toString'' = None \<and> map_of rollbacks ''send_alert'' = None
   \<and> map canRollback (interventions (onmessage example_clock
        (InterventionMsg (example_intervention ''iv1'' ''send_alert'')) (initial example_clock)))
      = [False]
   \<and> map rollbackAction (interventions (onmessage example_clock
        (InterventionMsg (example_intervention ''iv1'' ''send_alert'')) (initial example_clock)))
      = [Undefined]
   \<and> map canRollback (interventions (onmessage example_clock
        (InterventionMsg (example_intervention ''iv1'' ''toString'')) (initial example_clock)))
      = [False]
   \<and> map rollbackAction (interventions (onmessage example_clock
        (InterventionMsg (example_intervention ''iv1'' ''toString'')) (initial example_clock)))
      = [Inherited ''toString'']"
  by (simp add: interventions_onmessage annotate_fields initial_def rollbacks_def
      example_intervention_def object_prototype_members_def del: onmessage.simps)

text \<open>
  Claim C10.  The record \<open>handleApprove\<close> puts at the head of the ledger has type
  and action switch_gateway, canRollback, success and requires_approval true and
  approved_by human, whatever the proposal of the approved request carried and
  whether the request to the server succeeded or failed.
\<close>

theorem approved_record_fields:
  "\<exists>r. interventions (handleApprove c ok a s) = r # interventions s
     \<and> iv_id r = intervention_id a
     \<and> iv_type r = ''switch_gateway'' \<and> action r = ''switch_gateway''
     \<and> canRollback r \<and> success r \<and> requires_approval r \<and> approved_by r = Some ''human''"
  by (simp add: interventions_handleApprove approved_record_def)

section \<open>Resolving an approval\<close>

lemma pending_handleApprove:
  "pendingApprovals (handleApprove c ok a s) = resolve (intervention_id a) (pendingApprovals s)"
  by (simp add: handleApprove_def Let_def addAgentLog_def)

lemma pending_handleReject:
  "pendingApprovals (handleReject ok a s) = resolve (intervention_id a) (pendingApprovals s)"
  by (simp add: handleReject_def)

lemma resolve_remove1:
  assumes "distinct (map intervention_id q)" and "a \<in> set q"
  shows "resolve (intervention_id a) q = remove1 a q"
proof -
  have d: "distinct q" using assms(1) by (simp add: distinct_map)
  have "\<And>p. p \<in> set q \<Longrightarrow> (intervention_id p \<noteq> intervention_id a) = (p \<noteq> a)"
    using assms by (auto simp: distinct_map inj_on_def)
  then have "filter (\<lambda>p. intervention_id p \<noteq> intervention_id a) q = filter (\<lambda>p. p \<noteq> a) q"
    by (intro filter_cong) auto
  also have "\<dots> = remove1 a q"
    using d by (simp add: distinct_remove1_removeAll removeAll_filter_not_eq) metis
  finally show ?thesis by (simp add: resolve_def)
qed

text \<open>
  Claim C8.  The queue holds at most one entry per intervention_id.  Approving or
  rejecting a queued request removes that entry and no other: the queue that
  remains is the old one with the request taken out, the other entries in their
  order, one entry shorter.  This is so whether the request to the server
  succeeded or failed.
\<close>

theorem resolve_removes_exactly:
  assumes "distinct (map intervention_id (pendingApprovals s))"
    and "a \<in> set (pendingApprovals s)"
  shows "pendingApprovals (handleApprove c ok a s) = remove1 a (pendingApprovals s)
    \<and> pendingApprovals (handleReject ok' a s) = remove1 a (pendingApprovals s)
    \<and> set (remove1 a (pendingApprovals s)) = set (pendingApprovals s) - {a}
    \<and> length (remove1 a (pendingApprovals s)) = length (pendingApprovals s) - 1"
proof -
  have d: "distinct (pendingApprovals s)" using assms(1) by (simp add: distinct_map)
  show ?thesis
    using assms d
    by (simp add: pending_handleApprove pending_handleReject resolve_remove1 length_remove1)
qed

theorem resolve_removes_exactly_witness:
  "pendingApprovals (handleApprove example_clock True (example_request ''a'') two_pending)
     = [example_request ''b'']
   \<and> pendingApprovals (handleApprove example_clock False (example_request ''a'') two_pending)
     = [example_request ''b'']
   \<and> pendingApprovals (handleReject True (example_request ''a'') two_pending)
     = [example_request ''b'']
   \<and> pendingApprovals (handleReject False (example_request ''a'') two_pending)
     = [example_request ''b'']"
proof -
  have q: "pendingApprovals two_pending = [example_request ''a'', example_request ''b'']"
    by (simp add: two_pending_def)
  have d: "distinct (map intervention_id (pendingApprovals two_pending))"
    by (simp add: q example_request_def)
  have m: "example_request ''a'' \<in> set (pendingApprovals two_pending)"
    by (simp add: q)
  show ?thesis
    using resolve_removes_exactly [OF d m, of example_clock True True]
      resolve_removes_exactly [OF d m, of example_clock False False]
    by (simp add: q)
qed


section \<open>The narration cycle\<close>

lemma stages_length: "length stages = 5"
  by (simp add: stages_def)

lemma thoughtMessages_stages:
  assumes "i < 5"
  shows "\<exists>ms. thoughtMessages (stages ! i) = Some ms \<and> ms \<noteq> []"
proof -
  from assms consider "i = 0" | "i = 1" | "i = 2" | "i = 3" | "i = 4" by arith
  then show ?thesis by cases (simp_all add: stages_def)
qed

lemma random_index:
  assumes "0 \<le> r" and "r < 1" and "ms \<noteq> []"
  shows "0 \<le> \<lfloor>r * real (length ms)\<rfloor> \<and> \<lfloor>r * real (length ms)\<rfloor> < int (length ms)"
proof -
  have pos: "0 < real (length ms)" using assms(3) by simp
  have "r * real (length ms) < real (length ms)"
    using assms(2) pos by simp
  then have "\<lfloor>r * real (length ms)\<rfloor> < int (length ms)"
    by (simp add: floor_less_iff)
  moreover have "0 \<le> r * real (length ms)" using assms(1) by simp
  then have "0 \<le> \<lfloor>r * real (length ms)\<rfloor>" by simp
  ultimately show ?thesis by simp
qed

text \<open>
  Claim C5, as amended.  A tick of the narration interval with agent execution
  enabled appends one log entry, built from a message of the current stage's
  table, sets the current stage, and advances the cycle position by one, wrapping
  after the fifth stage.  A tick with agent execution disabled appends no log
  entry and leaves the cycle position where it is.  Here \<open>stageIndex\<close> is a
  position of the cycle and \<open>r\<close> a value of \<open>Math.random()\<close>.
\<close>

theorem narration_tick_cycle:
  assumes "stageIndex < length stages" and "0 \<le> r" and "r < 1"
  shows "(agentRunning s \<longrightarrow>
            (\<exists>ms msg. thoughtMessages (stages ! stageIndex) = Some ms \<and> msg \<in> set ms
               \<and> narration_tick c r (stageIndex, s) =
                   Some ((stageIndex + 1) mod 5,
                         setCurrentStage (stages ! stageIndex)
                           (addAgentLog (demo_entry c (stages ! stageIndex) msg) s))))
       \<and> (\<not> agentRunning s \<longrightarrow> narration_tick c r (stageIndex, s) = Some (stageIndex, s))"
proof (intro conjI impI)
  assume run: "agentRunning s"
  from assms(1) have i: "stageIndex < 5" by (simp add: stages_length)
  then obtain ms where ms: "thoughtMessages (stages ! stageIndex) = Some ms" "ms \<noteq> []"
    using thoughtMessages_stages by blast
  let ?k = "\<lfloor>r * real (length ms)\<rfloor>"
  have k: "0 \<le> ?k \<and> ?k < int (length ms)" using random_index [OF assms(2,3) ms(2)] .
  then have at: "at_index ms ?k = Some (ms ! nat ?k)" by (simp add: at_index_def)
  have mem: "ms ! nat ?k \<in> set ms" using k by (simp add: nat_less_iff)
  have st: "at_index stages (int stageIndex) = Some (stages ! stageIndex)"
    using assms(1) by (simp add: at_index_def)
  have "narration_tick c r (stageIndex, s) =
          Some ((stageIndex + 1) mod 5,
                setCurrentStage (stages ! stageIndex)
                  (addAgentLog (demo_entry c (stages ! stageIndex) (ms ! nat ?k)) s))"
    using run by (simp add: narration_tick_def st ms(1) at stages_length)
  with ms(1) mem
  show "\<exists>ms msg. thoughtMessages (stages ! stageIndex) = Some ms \<and> msg \<in> set ms
               \<and> narration_tick c r (stageIndex, s) =
                   Some ((stageIndex + 1) mod 5,
                         setCurrentStage (stages ! stageIndex)
                           (addAgentLog (demo_entry c (stages ! stageIndex) msg) s))"
    by blast
next
  assume "\<not> agentRunning s"
  then show "narration_tick c r (stageIndex, s) = Some (stageIndex, s)"
    by (simp add: narration_tick_def)
qed

theorem narration_tick_cycle_witness:
  "map_option fst (narration_tick example_clock (1/2) (4, initial example_clock)) = Some 0
   \<and> narration_tick example_clock (1/2) (4, paused) = Some (4, paused)"
proof -
  have i: "(4::nat) < length stages" by (simp add: stages_def)
  have r: "(0::real) \<le> 1/2" "(1/2::real) < 1" by simp_all
  have on: "agentRunning (initial example_clock)" by (simp add: initial_def)
  have off: "\<not> agentRunning paused" by (simp add: paused_def)
  show ?thesis
    using narration_tick_cycle [OF i r, of "initial example_clock" example_clock]
      narration_tick_cycle [OF i r, of paused example_clock] on off
    by auto
qed

text \<open>
  The claim as stated fails on a suppressed tick: with agent execution disabled the
  tick returns before it advances the position, which stays at 0 instead of
  moving to 1.
\<close>

theorem narration_paused_counterexample:
  "narration_active paused \<and> \<not> agentRunning paused
   \<and> map_option fst (narration_tick example_clock (1/2) (0, paused)) = Some 0
   \<and> map_option fst (narration_tick example_clock (1/2) (0, paused))
       \<noteq> Some ((0 + 1) mod length stages)"
  by (simp add: narration_tick_def narration_active_def paused_def initial_def stages_def)

section \<open>The drift generator\<close>

lemma drift_metrics_bounds:
  "85 \<le> success_rate (drift_metrics c rm m) \<and> success_rate (drift_metrics c rm m) \<le> 99
   \<and> 100 \<le> avg_latency (drift_metrics c rm m) \<and> avg_latency (drift_metrics c rm m) \<le> 500
   \<and> 1 \<le> error_rate (drift_metrics c rm m) \<and> error_rate (drift_metrics c rm m) \<le> 15"
  by (cases rm) (simp add: drift_metrics_def)

lemma drift_bank_bounds:
  "80 \<le> bank_success_rate (drift_bank c rs b) \<and> bank_success_rate (drift_bank c rs b) \<le> 199/2
   \<and> 100 \<le> bank_avg_latency (drift_bank c rs b) \<and> bank_avg_latency (drift_bank c rs b) \<le> 400"
  by (cases rs) (auto simp: drift_bank_def max_def min_def)

lemma drift_banks_elem:
  "b' \<in> set (drift_banks c rb bs) \<Longrightarrow> \<exists>i b. b' = drift_bank c (rb i) b"
  by (auto simp: drift_banks_def)

lemma drift_banks_length: "length (drift_banks c rb bs) = length bs"
  by (simp add: drift_banks_def)

lemma drift_tick_in_range: "in_range (drift_tick c rm rb s)"
  unfolding in_range_def
proof (intro conjI ballI)
  fix b assume "b \<in> set (banks (drift_tick c rm rb s))"
  then obtain i b0 where b: "b = drift_bank c (rb i) b0"
    using drift_banks_elem [of b c rb "banks s"] by (auto simp: drift_tick_def)
  show "80 \<le> bank_success_rate b" "bank_success_rate b \<le> 199/2"
       "100 \<le> bank_avg_latency b" "bank_avg_latency b \<le> 400"
    using drift_bank_bounds [of c "rb i" b0] b by simp_all
qed (use drift_metrics_bounds [of c rm "metrics s"] in \<open>simp_all add: drift_tick_def\<close>)

text \<open>What the generator derives, and from which value.\<close>

lemma drift_bank_status:
  "status (drift_bank c rs b) = status_of_rate (bank_success_rate b)"
  by (cases rs) (simp add: drift_bank_def)

lemma drift_metrics_error_rate:
  "error_rate (drift_metrics c rm m) = max 1 (min 15 (100 - success_rate m))"
  by (cases rm) (simp add: drift_metrics_def)

text \<open>
  Claim C9.  While the connection is not open, after any number of drift ticks,
  at least one, from any state and with any random draws, the snapshot has
  success_rate in [85, 99], avg_latency in [100, 500] and error_rate in [1, 15],
  and every bank has success_rate in [80, 99.5] and avg_latency in [100, 400].
  The ticks leave the connection state and the number of banks as they were.
\<close>

theorem drift_bounded:
  assumes "drift_active s" and "ds \<noteq> []"
  shows "in_range (drift_run s ds) \<and> drift_active (drift_run s ds)
         \<and> length (banks (drift_run s ds)) = length (banks s)"
  using assms(2)
proof (induction ds rule: rev_induct)
  case Nil
  then show ?case by simp
next
  case (snoc d ds)
  obtain c rm rb where d: "d = (c, rm, rb)" by (cases d)
  have run: "drift_run s (ds @ [d]) = drift_tick c rm rb (drift_run s ds)"
    by (simp add: drift_run_def drift_step_def d)
  have act: "drift_active (drift_run s ds) \<and> length (banks (drift_run s ds)) = length (banks s)"
  proof (cases "ds = []")
    case True
    with assms(1) show ?thesis by (simp add: drift_run_def)
  next
    case False
    with snoc.IH show ?thesis by simp
  qed
  show ?case
    using act drift_tick_in_range [of c rm rb "drift_run s ds"]
    by (simp add: run drift_active_def drift_tick_def drift_banks_length)
qed

theorem drift_bounded_witness:
  "in_range (drift_run near_threshold
      [(example_clock, (3/4, 1/2, 1/2), example_draws), (example_clock, (0, 0, 0), example_draws)])
   \<and> length (banks (drift_run near_threshold
      [(example_clock, (3/4, 1/2, 1/2), example_draws), (example_clock, (0, 0, 0), example_draws)])) = 1"
proof -
  have a: "drift_active near_threshold"
    by (simp add: drift_active_def near_threshold_def onclose_def)
  have n: "[(example_clock, (3/4, 1/2, 1/2), example_draws), (example_clock, (0, 0, 0), example_draws)]
           \<noteq> ([] :: drift_draw list)"
    by simp
  have b: "length (banks near_threshold) = 1"
    by (simp add: near_threshold_def onclose_def)
  show ?thesis using drift_bounded [OF a n] b by simp
qed

text \<open>
  Claim C3.  The claim asks the status of a bank after a drift tick to be the
  threshold function of the bank's new success_rate.  The generator applies the
  thresholds to the success_rate the bank had before the tick.  A bank at 84.75
  that the tick moves to 85 is left with status down, where the thresholds give
  degraded for 85.
\<close>

theorem drift_status_lags:
  "drift_active near_threshold
   \<and> map bank_success_rate (banks near_threshold) = [339/4]
   \<and> map bank_success_rate
        (banks (drift_tick example_clock (1/2, 1/2, 1/2) example_draws near_threshold)) = [85]
   \<and> map status
        (banks (drift_tick example_clock (1/2, 1/2, 1/2) example_draws near_threshold)) = [Down]
   \<and> status_of_rate 85 = Degraded"
  by (simp add: drift_active_def near_threshold_def onclose_def onopen_def addSystemLog_def
      drift_tick_def drift_banks_def drift_bank_def example_bank_def example_draws_def
      status_of_rate_def List.enumerate_eq_zip)

text \<open>
  Claim C4.  The claim asks the error_rate after a drift tick to be 100 minus the
  new success_rate, clamped to [1, 15].  The generator subtracts the success_rate
  of the snapshot before the tick.  From the initial snapshot at 97.5, a tick
  that moves the success_rate to 98 leaves the error_rate at 2.5, where 100 minus
  the new success_rate is 2.
\<close>

theorem drift_error_rate_lags:
  "drift_active (initial example_clock)
   \<and> success_rate (metrics (initial example_clock)) = 195/2
   \<and> success_rate (metrics (drift_tick example_clock (3/4, 1/2, 1/2) example_draws
        (initial example_clock))) = 98
   \<and> error_rate (metrics (drift_tick example_clock (3/4, 1/2, 1/2) example_draws
        (initial example_clock))) = 5/2
   \<and> max 1 (min 15 (100 - (98::real))) = 2"
  by (simp add: drift_active_def drift_tick_def drift_metrics_def initial_def)


end
